theory Spec2Isabelle
  imports Complex_Main
begin

section \<open>The calendar adapter\<close>

text \<open>
  \<^verbatim>\<open>src/MomentDateRanges.js\<close> computes with objects of the moment library. The library
  is an external collaborator; what follows is the part of its documented behaviour that
  DateRange and PeriodRange rely on.

  A calendar value is a whole day, numbered from 1970-01-01 (day 0) in the proleptic
  Gregorian calendar: DateRange is documented as a "range that operates on dates (not
  times, rounds to nearest day)". Time of day, time zones and daylight saving are outside
  the model. A day number \<open>d\<close> stands for the instant \<open>d * 86400000\<close> milliseconds after the
  epoch, which is what \<^verbatim>\<open>valueOf\<close> and \<^verbatim>\<open>diff\<close> report.
\<close>

definition is_leap :: "int \<Rightarrow> bool" where
  "is_leap y = (y mod 4 = 0 \<and> (y mod 100 \<noteq> 0 \<or> y mod 400 = 0))"

definition days_in_month :: "int \<Rightarrow> int \<Rightarrow> int" where
  "days_in_month y m =
     (if m = 2 then (if is_leap y then 29 else 28)
      else if m = 4 \<or> m = 6 \<or> m = 9 \<or> m = 11 then 30 else 31)"

text \<open>Day number of a civil date, by eras of 400 years that start on 1 March.\<close>

definition days_from_civil :: "int \<Rightarrow> int \<Rightarrow> int \<Rightarrow> int" where
  "days_from_civil y m d =
     (let y' = (if m \<le> 2 then y - 1 else y);
          era = y' div 400;
          yoe = y' - era * 400;
          doy = (153 * (if m > 2 then m - 3 else m + 9) + 2) div 5 + d - 1;
          doe = yoe * 365 + yoe div 4 - yoe div 100 + doy
      in era * 146097 + doe - 719468)"










text \<open>
  Reading a date. \<^verbatim>\<open>moment(x, ['MM-DD-YYYY', 'YYYY-MM-DD'])\<close> reads a string outside
  strict mode: each format is tried in turn, token by token. A numeric token takes the
  first run of digits found in what is left of the string, up to the token's width
  (one or two digits for \<^verbatim>\<open>MM\<close> and \<^verbatim>\<open>DD\<close>, one to four for \<^verbatim>\<open>YYYY\<close>); a literal
  takes its first occurrence; what stands before a match is skipped, and a token that is
  not found is passed over.
\<close>

definition digit_of :: "char \<Rightarrow> int option" where
  "digit_of c =
     (let n = (of_char c :: nat) in if 48 \<le> n \<and> n \<le> 57 then Some (int n - 48) else None)"

definition is_digit :: "char \<Rightarrow> bool" where
  "is_digit c = (digit_of c \<noteq> None)"

fun number_of :: "int \<Rightarrow> string \<Rightarrow> int option" where
  "number_of acc [] = Some acc"
| "number_of acc (c # cs) =
     (case digit_of c of None \<Rightarrow> None | Some v \<Rightarrow> number_of (10 * acc + v) cs)"

text \<open>\<^verbatim>\<open>toInt\<close>: the number a string of digits denotes, and 0 for what is no number.\<close>

definition toInt :: "string \<Rightarrow> int" where
  "toInt ds = (case number_of 0 ds of None \<Rightarrow> 0 | Some n \<Rightarrow> n)"

text \<open>
  The match of a numeric token of width \<open>n\<close>: the matched digits and the string after
  them, or \<open>None\<close> when the string holds no digit.
\<close>

definition match_digits :: "nat \<Rightarrow> string \<Rightarrow> (string \<times> string) option" where
  "match_digits n s =
     (case dropWhile (\<lambda>c. \<not> is_digit c) s of
        [] \<Rightarrow> None
      | c # cs \<Rightarrow>
          Some (takeWhile is_digit (take n (c # cs)),
                drop (length (takeWhile is_digit (take n (c # cs)))) (c # cs)))"

text \<open>The first occurrence of a literal character: the string after it.\<close>

definition match_literal :: "char \<Rightarrow> string \<Rightarrow> string option" where
  "match_literal x s = (case dropWhile (\<lambda>c. c \<noteq> x) s of [] \<Rightarrow> None | c # cs \<Rightarrow> Some cs)"

datatype token = YYYY | MM | DD | Literal char

text \<open>
  The parsing state of \<^verbatim>\<open>configFromStringAndFormat\<close>: the entries \<^verbatim>\<open>_a[YEAR]\<close>,
  \<^verbatim>\<open>_a[MONTH]\<close> (counted from 0) and \<^verbatim>\<open>_a[DATE]\<close> of the date array, the rest of the
  string, and the parsing flags that decide validity and score.
\<close>

record config =
  a_year :: "int option"
  a_month :: "int option"
  a_date :: "int option"
  c_string :: string
  totalParsedInputLength :: nat
  unusedTokens :: nat
  flag_empty :: bool

text \<open>A year of two digits is of this century up to 68, of the last one from 69.\<close>

definition parseTwoDigitYear :: "string \<Rightarrow> int" where
  "parseTwoDigitYear ds = toInt ds + (if toInt ds > 68 then 1900 else 2000)"

definition matched :: "config \<Rightarrow> string \<Rightarrow> string \<Rightarrow> config" where
  "matched c ds r =
     c\<lparr>c_string := r, totalParsedInputLength := totalParsedInputLength c + length ds,
       flag_empty := False\<rparr>"

definition unmatched :: "config \<Rightarrow> config" where
  "unmatched c = c\<lparr>unusedTokens := unusedTokens c + 1\<rparr>"

text \<open>One round of the loop over the tokens of a format.\<close>

fun parse_token :: "config \<Rightarrow> token \<Rightarrow> config" where
  "parse_token c (Literal x) =
     (case match_literal x (c_string c) of
        None \<Rightarrow> c
      | Some r \<Rightarrow> c\<lparr>c_string := r, totalParsedInputLength := totalParsedInputLength c + 1\<rparr>)"
| "parse_token c YYYY =
     (case match_digits 4 (c_string c) of
        None \<Rightarrow> unmatched c
      | Some (ds, r) \<Rightarrow>
          (matched c ds r)
            \<lparr>a_year := Some (if length ds = 2 then parseTwoDigitYear ds else toInt ds)\<rparr>)"
| "parse_token c MM =
     (case match_digits 2 (c_string c) of
        None \<Rightarrow> unmatched c
      | Some (ds, r) \<Rightarrow> (matched c ds r)\<lparr>a_month := Some (toInt ds - 1)\<rparr>)"
| "parse_token c DD =
     (case match_digits 2 (c_string c) of
        None \<Rightarrow> unmatched c
      | Some (ds, r) \<Rightarrow> (matched c ds r)\<lparr>a_date := Some (toInt ds)\<rparr>)"

definition configFromStringAndFormat :: "string \<Rightarrow> token list \<Rightarrow> config" where
  "configFromStringAndFormat s f =
     foldl parse_token
       \<lparr>a_year = None, a_month = None, a_date = None, c_string = s,
        totalParsedInputLength = 0, unusedTokens = 0, flag_empty = True\<rparr> f"

text \<open>
  \<^verbatim>\<open>configFromArray\<close> fills the entries that were not read: from the current date as long
  as the leading entries are missing, then with January and the first of the month. The
  current date is the day of the run (year, month counted from 0, day), here 3 November
  2026; it matters only for a string that leaves no digits for the year.
\<close>

definition currentDateArray :: "int \<times> int \<times> int" where
  "currentDateArray = (2026, 10, 3)"

definition configFromArray :: "config \<Rightarrow> int \<times> int \<times> int" where
  "configFromArray c =
     (case currentDateArray of (cy, cm, cd) \<Rightarrow>
      (case a_year c of
         Some y \<Rightarrow> (y, (case a_month c of None \<Rightarrow> 0 | Some m \<Rightarrow> m),
                       (case a_date c of None \<Rightarrow> 1 | Some d \<Rightarrow> d))
       | None \<Rightarrow>
          (case a_month c of
             Some m \<Rightarrow> (cy, m, (case a_date c of None \<Rightarrow> 1 | Some d \<Rightarrow> d))
           | None \<Rightarrow> (cy, cm, (case a_date c of None \<Rightarrow> cd | Some d \<Rightarrow> d)))))"

text \<open>
  \<^verbatim>\<open>checkOverflow\<close>: a month outside 0 to 11, or a day outside the month. A result is
  valid when nothing overflows and some token was read.
\<close>

definition overflow :: "config \<Rightarrow> bool" where
  "overflow c =
     (case configFromArray c of (y, m, d) \<Rightarrow>
        m < 0 \<or> 11 < m \<or> d < 1 \<or> days_in_month y (m + 1) < d)"

definition isValid :: "config \<Rightarrow> bool" where
  "isValid c = (\<not> overflow c \<and> \<not> flag_empty c)"

text \<open>The penalty of a format: the characters left unread, and ten for each unused token.\<close>

definition score :: "string \<Rightarrow> config \<Rightarrow> nat" where
  "score s c = (length s - totalParsedInputLength c) + unusedTokens c * 10"

text \<open>
  \<^verbatim>\<open>configFromStringAndArray\<close>, the loop over the formats: until a valid format is found,
  a format replaces the best one when it scores lower or is valid; afterwards, when it
  scores lower.
\<close>

fun configFromStringAndArray ::
  "string \<Rightarrow> (config \<times> nat) option \<Rightarrow> bool \<Rightarrow> token list list \<Rightarrow> config option" where
  "configFromStringAndArray s best bestFormatIsValid [] = map_option fst best"
| "configFromStringAndArray s best bestFormatIsValid (f # fs) =
     (let tempConfig = configFromStringAndFormat s f;
          currentScore = score s tempConfig;
          validFormatFound = isValid tempConfig
      in if \<not> bestFormatIsValid
         then (if (case best of None \<Rightarrow> True
                    | Some (bestMoment, scoreToBeat) \<Rightarrow> currentScore < scoreToBeat)
                  \<or> validFormatFound
               then configFromStringAndArray s (Some (tempConfig, currentScore))
                      validFormatFound fs
               else configFromStringAndArray s best bestFormatIsValid fs)
         else (if (case best of None \<Rightarrow> False
                    | Some (bestMoment, scoreToBeat) \<Rightarrow> currentScore < scoreToBeat)
               then configFromStringAndArray s (Some (tempConfig, currentScore))
                      bestFormatIsValid fs
               else configFromStringAndArray s best bestFormatIsValid fs))"

text \<open>The format list of the source, \<^verbatim>\<open>['MM-DD-YYYY', 'YYYY-MM-DD']\<close>, in tokens.\<close>

definition formats :: "token list list" where
  "formats = [[MM, Literal CHR ''-'', DD, Literal CHR ''-'', YYYY],
              [YYYY, Literal CHR ''-'', MM, Literal CHR ''-'', DD]]"

text \<open>
  The day a string is read as under the format list, \<open>None\<close> when the result is not valid.
  So \<^verbatim>\<open>'2020-01-05'\<close>, \<^verbatim>\<open>'01-05-2020'\<close> and \<^verbatim>\<open>'2020-1-5'\<close> are 5 January 2020,
  \<^verbatim>\<open>'13-01-2020'\<close> is 20 January 2013, and what follows the date in a string is ignored.
\<close>

definition parse_date :: "string \<Rightarrow> int option" where
  "parse_date s =
     (case configFromStringAndArray s None False formats of
        None \<Rightarrow> None
      | Some c \<Rightarrow>
          if isValid c
          then (case configFromArray c of (y, m, d) \<Rightarrow> Some (days_from_civil y (m + 1) d))
          else None)"








subsection \<open>Moment objects live in a store\<close>

text \<open>
  A moment is a mutable object: \<^verbatim>\<open>add\<close> and \<^verbatim>\<open>subtract\<close> change the receiver in place
  and return the receiver itself. Two variables that hold the same moment see each
  other's updates, so the model keeps every moment in a store and passes references.
\<close>

datatype timeunit = Day | Week

fun unit_days :: "timeunit \<Rightarrow> int" where
  "unit_days Day = 1"
| "unit_days Week = 7"

text \<open>
  The store: \<open>cell h r\<close> is the day the moment at reference \<open>r\<close> shows, and \<open>fresh h\<close> is
  the reference the next new moment gets.
\<close>

record heap =
  cell :: "nat \<Rightarrow> int"
  fresh :: nat

definition alloc :: "heap \<Rightarrow> int \<Rightarrow> heap \<times> nat" where
  "alloc h v = (h\<lparr>cell := (cell h)(fresh h := v), fresh := Suc (fresh h)\<rparr>, fresh h)"

definition moment_add :: "heap \<Rightarrow> nat \<Rightarrow> int \<Rightarrow> timeunit \<Rightarrow> heap \<times> nat" where
  "moment_add h r n u = (h\<lparr>cell := (cell h)(r := cell h r + n * unit_days u)\<rparr>, r)"

definition moment_subtract :: "heap \<Rightarrow> nat \<Rightarrow> int \<Rightarrow> timeunit \<Rightarrow> heap \<times> nat" where
  "moment_subtract h r n u = (h\<lparr>cell := (cell h)(r := cell h r - n * unit_days u)\<rparr>, r)"

definition valueOf :: "heap \<Rightarrow> nat \<Rightarrow> int" where
  "valueOf h r = cell h r * 86400000"

text \<open>
  A comparison with \<^verbatim>\<open><\<close>, \<^verbatim>\<open>>\<close> or \<^verbatim>\<open>>=\<close> turns both sides into numbers: a moment
  into its \<^verbatim>\<open>valueOf\<close>, null into 0.
\<close>

definition toNumber :: "heap \<Rightarrow> nat option \<Rightarrow> int" where
  "toNumber h v = (case v of None \<Rightarrow> 0 | Some r \<Rightarrow> valueOf h r)"

definition isSame :: "heap \<Rightarrow> nat \<Rightarrow> nat \<Rightarrow> bool" where
  "isSame h a b = (valueOf h a = valueOf h b)"

definition diff :: "heap \<Rightarrow> nat \<Rightarrow> nat \<Rightarrow> int" where
  "diff h a b = valueOf h a - valueOf h b"

definition asDays :: "int \<Rightarrow> rat" where
  "asDays ms = of_int ms / 86400000"

text \<open>\<^verbatim>\<open>Math.round\<close> rounds to the nearest integer, a half towards plus infinity.\<close>

definition Math_round :: "rat \<Rightarrow> int" where
  "Math_round q = \<lfloor>q + 1 / 2\<rfloor>"

text \<open>The values a caller can hand over as a bound or as a comparand.\<close>

datatype jsval = JUndefined | JNull | JStr string | JMoment nat

fun truthy :: "jsval \<Rightarrow> bool" where
  "truthy JUndefined = False"
| "truthy JNull = False"
| "truthy (JStr s) = (s \<noteq> [])"
| "truthy (JMoment r) = True"

text \<open>
  The calendar day a value denotes, if any: a string that is read as a date under the
  two formats, or a moment of the store (references below \<open>fresh\<close> are the moments that
  exist).
\<close>

fun denotes :: "heap \<Rightarrow> jsval \<Rightarrow> int option" where
  "denotes h (JStr s) = parse_date s"
| "denotes h (JMoment r) = (if r < fresh h then Some (cell h r) else None)"
| "denotes h JUndefined = None"
| "denotes h JNull = None"

text \<open>
  \<^verbatim>\<open>moment(x, ['MM-DD-YYYY', 'YYYY-MM-DD'])\<close>: a new moment for a string that is read as
  a date, a copy of \<open>x\<close> when \<open>x\<close> is a moment; \<open>None\<close> stands for a result whose
  \<^verbatim>\<open>isValid()\<close> is false.
\<close>

definition moment :: "heap \<Rightarrow> jsval \<Rightarrow> (heap \<times> nat) option" where
  "moment h v = map_option (alloc h) (denotes h v)"

section \<open>Settings, the canonical tuple and the generic range\<close>

record settings =
  s_lower :: jsval
  s_upper :: jsval
  s_lowerInc :: "bool option"
  s_upperInc :: "bool option"
  s_type :: "string option"

text \<open>
  \<^verbatim>\<open>Object.keys(settings).length\<close> for a plain object: a property that was not supplied
  is \<open>JUndefined\<close> or \<open>None\<close>.
\<close>

definition keys_length :: "settings \<Rightarrow> nat" where
  "keys_length S =
     (if s_lower S = JUndefined then 0 else 1) + (if s_upper S = JUndefined then 0 else 1)
     + (if s_lowerInc S = None then 0 else 1) + (if s_upperInc S = None then 0 else 1)
     + (if s_type S = None then 0 else 1)"

text \<open>
  \<^verbatim>\<open>_internalRange = utils.namedList(['lower', 'upper', 'lowerInc', 'upperInc', 'empty'])\<close>;
  a bound is a reference to a moment, or null.
\<close>

record internalRange =
  lower :: "nat option"
  upper :: "nat option"
  lowerInc :: bool
  upperInc :: bool
  empty :: bool

definition emptyInternalRange :: internalRange where
  "emptyInternalRange =
     \<lparr>lower = None, upper = None, lowerInc = False, upperInc = False, empty = True\<rparr>"

text \<open>
  An instance of DateRange or PeriodRange. \<^verbatim>\<open>this.lower\<close>, \<^verbatim>\<open>this.upper\<close>,
  \<^verbatim>\<open>this.lowerInc\<close> and \<^verbatim>\<open>this.upperInc\<close> read the tuple in \<open>irange\<close> (the source's
  \<^verbatim>\<open>_range\<close>): PeriodRange.fromDate assigns \<^verbatim>\<open>_range\<close> alone and nextPeriod then reads
  \<^verbatim>\<open>this.upper\<close>.
\<close>

text \<open>
  The names of the periods of a PeriodRange, in the source the strings \<^verbatim>\<open>'day'\<close>,
  \<^verbatim>\<open>'week'\<close> and so on; the spec speaks of "a named calendar granularity (day, week,
  etc.)".
\<close>

datatype period_name = PerDay | PerWeek | PerMonth | PerQuarter | PerYear

record DateRange =
  irange :: internalRange
  step :: "timeunit option"
  rtype :: "string option"
  offsetType :: "string option"
  period :: "period_name option"

datatype bound = LowerBound | UpperBound

text \<open>
  The errors the code throws: \<^verbatim>\<open>Error('Invalid type of lower bound')\<close> and its twin for
  the upper bound, \<^verbatim>\<open>Error('Unbounded ranges do not have a length')\<close>, and the TypeError
  of a method call on null.
\<close>

datatype error = InvalidBound bound | UnboundedLength | TypeError

text \<open>
  Modelled from the spec: \<^verbatim>\<open>utils.isValidDate\<close> is not among the sources. The spec has
  it accept "a recognized date representation (two accepted textual formats, or an
  already-valid calendar value)".
\<close>

definition isValidDate :: "heap \<Rightarrow> jsval \<Rightarrow> bool" where
  "isValidDate h v = (moment h v \<noteq> None)"

text \<open>
  Modelled from the spec: the constructor of the generic range \<^verbatim>\<open>MomentDateRange\<close> is
  not among the sources. The spec has it build the range "from
  \<open>{lower, upper, lowerInc, upperInc, type}\<close>" with \<open>lowerInc\<close> defaulting to true and
  \<open>upperInc\<close> to false, "null/absent bounds" meaning unbounded, and the calendar adapter's
  \<open>parse\<close> turning a supplied bound into a date value of its own.
\<close>

definition bound_of :: "heap \<Rightarrow> jsval \<Rightarrow> heap \<times> nat option" where
  "bound_of h v =
     (if truthy v
      then (case moment h v of Some (h', r) \<Rightarrow> (h', Some r) | None \<Rightarrow> (h, None))
      else (h, None))"

text \<open>
  Modelled from the spec: the constructor of \<^verbatim>\<open>MomentDateRange\<close>, which is not among the
  sources; it stores the two bounds and the two flags, with the defaults above, in a tuple
  that is not empty.
\<close>

definition MomentDateRange_constructor :: "heap \<Rightarrow> settings \<Rightarrow> heap \<times> DateRange" where
  "MomentDateRange_constructor h S =
     (case bound_of h (s_lower S) of (h1, lo) \<Rightarrow>
      (case bound_of h1 (s_upper S) of (h2, up) \<Rightarrow>
        (h2, \<lparr>irange = \<lparr>lower = lo, upper = up,
                         lowerInc = (case s_lowerInc S of None \<Rightarrow> True | Some b \<Rightarrow> b),
                         upperInc = (case s_upperInc S of None \<Rightarrow> False | Some b \<Rightarrow> b),
                         empty = False\<rparr>,
              step = None, rtype = None, offsetType = None, period = None\<rparr>)))"

text \<open>
  Modelled from the spec: \<^verbatim>\<open>replace\<close> of the generic range is not among the sources.
  The spec calls it "field replacement", done in place; both calls in the source name all
  four fields.
\<close>

definition MomentDateRange_replace ::
  "DateRange \<Rightarrow> nat option \<Rightarrow> nat option \<Rightarrow> bool \<Rightarrow> bool \<Rightarrow> DateRange" where
  "MomentDateRange_replace this lo up li ui =
     this\<lparr>irange := (irange this)\<lparr>lower := lo, upper := up, lowerInc := li, upperInc := ui\<rparr>\<rparr>"

section \<open>DateRange\<close>

text \<open>
  \<^verbatim>\<open>next(curr, step = 'day')\<close>: \<open>this\<close> is \<open>None\<close> when the function is called
  unbound, as the iterator does; an omitted or undefined \<open>step\<close> is \<open>None\<close>.
\<close>

definition DateRange_next ::
  "DateRange option \<Rightarrow> heap \<Rightarrow> nat \<Rightarrow> timeunit option \<Rightarrow> heap \<times> nat" where
  "DateRange_next this h cur stp =
     (let step0 = (case stp of None \<Rightarrow> Day | Some u \<Rightarrow> u);
          step1 = (case this of None \<Rightarrow> step0
                   | Some t \<Rightarrow> (case step t of Some u \<Rightarrow> u | None \<Rightarrow> step0))
      in moment_add h cur 1 step1)"

definition DateRange_prev :: "heap \<Rightarrow> nat \<Rightarrow> timeunit option \<Rightarrow> heap \<times> nat" where
  "DateRange_prev h cur stp =
     moment_subtract h cur 1 (case stp of None \<Rightarrow> Day | Some u \<Rightarrow> u)"

text \<open>Lines 27 to 35: the two validity checks, the lower bound first.\<close>

definition validate :: "heap \<Rightarrow> settings \<Rightarrow> error option" where
  "validate h S =
     (if keys_length S \<noteq> 0 \<and> truthy (s_lower S) \<and> \<not> isValidDate h (s_lower S)
      then Some (InvalidBound LowerBound)
      else if keys_length S \<noteq> 0 \<and> truthy (s_upper S) \<and> \<not> isValidDate h (s_upper S)
      then Some (InvalidBound UpperBound)
      else None)"

text \<open>Lines 38 to 41 and 42 to 45: the adjusted bounds \<open>lb\<close> and \<open>ub\<close>.\<close>

definition adjust_lower :: "DateRange \<Rightarrow> heap \<Rightarrow> heap \<times> nat option" where
  "adjust_lower this h =
     (case lower (irange this) of
        None \<Rightarrow> (h, None)
      | Some l \<Rightarrow>
          if \<not> lowerInc (irange this)
          then (case DateRange_next (Some this) h l None of (h', r) \<Rightarrow> (h', Some r))
          else (h, Some l))"

definition adjust_upper :: "DateRange \<Rightarrow> heap \<Rightarrow> heap \<times> nat option" where
  "adjust_upper this h =
     (case upper (irange this) of
        None \<Rightarrow> (h, None)
      | Some u \<Rightarrow>
          if upperInc (irange this)
          then (case DateRange_next (Some this) h u (step this) of (h', r) \<Rightarrow> (h', Some r))
          else (h, Some u))"

text \<open>Lines 46 to 52: the empty tuple when \<^verbatim>\<open>lb >= ub\<close>, else the half-open one.\<close>

definition canonical :: "DateRange \<Rightarrow> heap \<Rightarrow> nat option \<Rightarrow> nat option \<Rightarrow> DateRange" where
  "canonical this h lb ub =
     (if lower (irange this) \<noteq> None \<and> upper (irange this) \<noteq> None
         \<and> toNumber h lb \<ge> toNumber h ub
      then MomentDateRange_replace (this\<lparr>irange := emptyInternalRange\<rparr>) None None False False
      else MomentDateRange_replace
             (this\<lparr>irange := \<lparr>lower = lb, upper = ub, lowerInc = True, upperInc = False,
                               empty = False\<rparr>\<rparr>) lb ub True False)"

text \<open>
  The constructor returns the store, the caller's settings object as the constructor
  leaves it, and the new instance; or the error it throws.
\<close>

definition DateRange_constructor ::
  "heap \<Rightarrow> settings \<Rightarrow> error + (heap \<times> settings \<times> DateRange)" where
  "DateRange_constructor h S =
     (case validate h S of
        Some e \<Rightarrow> Inl e
      | None \<Rightarrow>
         (let S1 = S\<lparr>s_type := Some ''date''\<rparr> in
          case MomentDateRange_constructor h S1 of (h1, this) \<Rightarrow>
          (case adjust_lower this h1 of (h2, lb) \<Rightarrow>
           (case adjust_upper this h2 of (h3, ub) \<Rightarrow>
             Inr (h3, S1,
                  (canonical this h3 lb ub)
                    \<lparr>step := Some Day, rtype := s_type S1,
                     offsetType := Some ''duration''\<rparr>)))))"

text \<open>
  \<^verbatim>\<open>last()\<close>: \<^verbatim>\<open>this.prev(this.upper, this.step)\<close> hands the moment stored as the upper
  bound to \<^verbatim>\<open>subtract\<close>, which moves that very object back and returns it.
\<close>

definition DateRange_last :: "heap \<Rightarrow> DateRange \<Rightarrow> heap \<times> nat option" where
  "DateRange_last h this =
     (case upper (irange this) of
        None \<Rightarrow> (h, None)
      | Some u \<Rightarrow> (case DateRange_prev h u (step this) of (h', r) \<Rightarrow> (h', Some r)))"

text \<open>
  \<^verbatim>\<open>endsWith(other)\<close>. The generic range's \<^verbatim>\<open>endsWith\<close>, to which a comparand that is
  no date is handed, is not among the sources and is the parameter \<open>super_endsWith\<close>.
  Calling \<^verbatim>\<open>isSame\<close> on a null \<open>last\<close> throws a TypeError.
\<close>

definition DateRange_endsWith ::
  "(heap \<Rightarrow> DateRange \<Rightarrow> jsval \<Rightarrow> error + heap \<times> bool)
     \<Rightarrow> heap \<Rightarrow> DateRange \<Rightarrow> jsval \<Rightarrow> error + heap \<times> bool" where
  "DateRange_endsWith super_endsWith h this other =
     (case moment h other of
        None \<Rightarrow> super_endsWith h this other
      | Some (h1, probe) \<Rightarrow>
         (case DateRange_last h1 this of (h2, lst) \<Rightarrow>
           (case moment h2 other of
              None \<Rightarrow> (case lst of None \<Rightarrow> Inl TypeError | Some l \<Rightarrow> Inr (h2, False))
            | Some (h3, test) \<Rightarrow>
               (case lst of None \<Rightarrow> Inl TypeError | Some l \<Rightarrow> Inr (h3, isSame h3 l test)))))"

text \<open>
  The iterator object closes over \<open>start\<close>, \<open>last\<close> and \<open>step\<close>. Creating it calls
  \<^verbatim>\<open>this.last()\<close> and \<^verbatim>\<open>this.prev(this.lower, step)\<close>; on a null lower bound the
  latter throws a TypeError.
\<close>

record iterator =
  it_start :: nat
  it_last :: "nat option"
  it_step :: "timeunit option"

definition DateRange_iterator :: "heap \<Rightarrow> DateRange \<Rightarrow> error + heap \<times> iterator" where
  "DateRange_iterator h this =
     (case DateRange_last h this of (h1, lst) \<Rightarrow>
       (case lower (irange this) of
          None \<Rightarrow> Inl TypeError
        | Some l \<Rightarrow>
           (case DateRange_prev h1 l (step this) of (h2, start) \<Rightarrow>
              Inr (h2, \<lparr>it_start = start, it_last = lst, it_step = step this\<rparr>))))"

text \<open>
  One call of the iterator's \<^verbatim>\<open>next()\<close>: the store, the iterator, the reference in
  \<open>value\<close> and the flag \<open>done\<close>, which is \<^verbatim>\<open>start > last\<close>. \<open>nextFunc\<close> is called
  unbound.
\<close>

definition iterator_next :: "heap \<Rightarrow> iterator \<Rightarrow> heap \<times> iterator \<times> nat \<times> bool" where
  "iterator_next h it =
     (case DateRange_next None h (it_start it) (it_step it) of (h', s) \<Rightarrow>
        (h', it\<lparr>it_start := s\<rparr>, s, toNumber h' (Some s) > toNumber h' (it_last it)))"

text \<open>
  A \<^verbatim>\<open>for ... of\<close> loop over the iterator: it calls \<^verbatim>\<open>next()\<close> until \<open>done\<close>, and
  records the day each produced value shows when it is produced. The loop need not end,
  so not returning is the value \<open>None\<close>.
\<close>

partial_function (option) consume ::
  "heap \<Rightarrow> iterator \<Rightarrow> int list \<Rightarrow> (heap \<times> int list) option" where
  "consume h it acc =
     (case iterator_next h it of (h', it', v, done) \<Rightarrow>
        if done then Some (h', acc) else consume h' it' (acc @ [cell h' v]))"

definition DateRange_iterate ::
  "heap \<Rightarrow> DateRange \<Rightarrow> (error + heap \<times> int list) option" where
  "DateRange_iterate h this =
     (case DateRange_iterator h this of
        Inl e \<Rightarrow> Some (Inl e)
      | Inr (h1, it) \<Rightarrow> map_option Inr (consume h1 it []))"

text \<open>
  \<^verbatim>\<open>length()\<close>: \<^verbatim>\<open>Math.round(moment.duration(this.upper.diff(this.lower)).asDays())\<close>.
  The quotient is exact here; JavaScript computes it in double precision, which is exact
  too for whole days. (In local time a day may last 23 or 25 hours; the rounding absorbs
  that, and the model's days all last 24.)
\<close>

definition DateRange_length :: "heap \<Rightarrow> DateRange \<Rightarrow> error + int" where
  "DateRange_length h this =
     (case upper (irange this) of
        None \<Rightarrow> Inl UnboundedLength
      | Some u \<Rightarrow>
         (case lower (irange this) of
            None \<Rightarrow> Inl UnboundedLength
          | Some l \<Rightarrow> Inr (Math_round (asDays (diff h u l)))))"

section \<open>PeriodRange\<close>












section \<open>Observing a range\<close>

text \<open>The calendar days the two bounds of an instance show in a given store.\<close>

definition bounds :: "heap \<Rightarrow> DateRange \<Rightarrow> int option \<times> int option" where
  "bounds h r = (map_option (cell h) (lower (irange r)), map_option (cell h) (upper (irange r)))"




text \<open>A store with no moment in it, and the object literal a caller writes.\<close>

definition empty_store :: heap where
  "empty_store = \<lparr>cell = (\<lambda>r. 0), fresh = 0\<rparr>"

definition settings_of :: "jsval \<Rightarrow> jsval \<Rightarrow> bool option \<Rightarrow> bool option \<Rightarrow> settings" where
  "settings_of lo up li ui =
     \<lparr>s_lower = lo, s_upper = up, s_lowerInc = li, s_upperInc = ui, s_type = None\<rparr>"

section \<open>Dates used in the scenarios\<close>


lemma parse_2020_01_01: "parse_date ''2020-01-01'' = Some 18262"
  by code_simp

lemma parse_2020_01_02: "parse_date ''2020-01-02'' = Some 18263"
  by code_simp

lemma parse_2020_01_04: "parse_date ''2020-01-04'' = Some 18265"
  by code_simp

lemma parse_2020_01_05: "parse_date ''2020-01-05'' = Some 18266"
  by code_simp

lemma parse_2020_01_06: "parse_date ''2020-01-06'' = Some 18267"
  by code_simp

lemma parse_american: "parse_date ''01-05-2020'' = Some 18266"
  by code_simp

lemma parse_month_13: "parse_date ''2020-13-01'' = None"
  by code_simp

lemma parse_spellings:
  "parse_date ''2020-1-5'' = Some 18266"
  "parse_date ''2020-01-05T00:00:00+00:00'' = Some 18266"
  "parse_date ''13-01-2020'' = parse_date ''2013-01-20''"
  by code_simp+








section \<open>The constructor in closed form\<close>

lemma parse_date_Nil: "parse_date [] = None"
  by code_simp

lemma denotes_truthy: "denotes h v = Some d \<Longrightarrow> truthy v"
  by (cases v) (auto simp: parse_date_Nil)

lemma denotes_alloc: "denotes h v = Some d \<Longrightarrow> denotes (fst (alloc h x)) v = Some d"
  by (cases v) (auto simp: alloc_def split: if_splits)

lemma bound_of_valid:
  "denotes h v = Some d \<Longrightarrow>
     bound_of h v = (h\<lparr>cell := (cell h)(fresh h := d), fresh := Suc (fresh h)\<rparr>, Some (fresh h))"
  by (simp add: bound_of_def moment_def alloc_def denotes_truthy)

lemma bound_of_falsy: "\<not> truthy v \<Longrightarrow> bound_of h v = (h, None)"
  by (simp add: bound_of_def)

lemma keys_length_lower: "truthy (s_lower S) \<Longrightarrow> keys_length S \<noteq> 0"
  by (cases "s_lower S") (simp_all add: keys_length_def)

lemma keys_length_upper: "truthy (s_upper S) \<Longrightarrow> keys_length S \<noteq> 0"
  by (cases "s_upper S") (simp_all add: keys_length_def)

lemma validate_closed:
  "validate h S =
     (if truthy (s_lower S) \<and> denotes h (s_lower S) = None then Some (InvalidBound LowerBound)
      else if truthy (s_upper S) \<and> denotes h (s_upper S) = None then Some (InvalidBound UpperBound)
      else None)"
  using keys_length_lower[of S] keys_length_upper[of S]
  by (auto simp: validate_def isValidDate_def moment_def)

lemma ctor_fails: "validate h S = Some e \<Longrightarrow> DateRange_constructor h S = Inl e"
  by (simp add: DateRange_constructor_def)

lemma ctor_succeeds:
  "validate h S = None \<Longrightarrow> \<exists>h' r. DateRange_constructor h S = Inr (h', S\<lparr>s_type := Some ''date''\<rparr>, r)"
  by (simp add: DateRange_constructor_def Let_def split: prod.splits)

lemma ctor_both:
  assumes "denotes h (s_lower S) = Some dl" "denotes h (s_upper S) = Some du"
  shows "DateRange_constructor h S =
     Inr (h\<lparr>cell := (cell h)(fresh h := (if s_lowerInc S = Some False then dl + 1 else dl),
                 Suc (fresh h) := (if s_upperInc S = Some True then du + 1 else du)),
              fresh := Suc (Suc (fresh h))\<rparr>,
          S\<lparr>s_type := Some ''date''\<rparr>,
          \<lparr>irange = (if (if s_lowerInc S = Some False then dl + 1 else dl)
                          \<ge> (if s_upperInc S = Some True then du + 1 else du)
                     then emptyInternalRange
                     else \<lparr>lower = Some (fresh h), upper = Some (Suc (fresh h)),
                            lowerInc = True, upperInc = False, empty = False\<rparr>),
           step = Some Day, rtype = Some ''date'', offsetType = Some ''duration'',
           period = None\<rparr>)"
proof -
  have v: "validate h S = None" using assms by (simp add: validate_closed)
  let ?h1 = "h\<lparr>cell := (cell h)(fresh h := dl), fresh := Suc (fresh h)\<rparr>"
  have b1: "bound_of h (s_lower S) = (?h1, Some (fresh h))"
    using assms(1) by (rule bound_of_valid)
  have "denotes ?h1 (s_upper S) = Some du"
    using denotes_alloc[OF assms(2), of dl] by (simp add: alloc_def)
  from bound_of_valid[OF this]
  have b2: "bound_of ?h1 (s_upper S) =
      (?h1\<lparr>cell := (cell ?h1)(fresh ?h1 := du), fresh := Suc (fresh ?h1)\<rparr>, Some (fresh ?h1))" .
  show ?thesis
    by (simp add: DateRange_constructor_def v MomentDateRange_constructor_def b1 b2
        adjust_lower_def adjust_upper_def canonical_def MomentDateRange_replace_def
        DateRange_next_def moment_add_def toNumber_def valueOf_def emptyInternalRange_def
        fun_upd_twist
        split: option.splits)
qed

lemma ctor_lower_only:
  assumes "denotes h (s_lower S) = Some dl" "\<not> truthy (s_upper S)"
  shows "DateRange_constructor h S =
     Inr (h\<lparr>cell := (cell h)(fresh h := (if s_lowerInc S = Some False then dl + 1 else dl)),
              fresh := Suc (fresh h)\<rparr>,
          S\<lparr>s_type := Some ''date''\<rparr>,
          \<lparr>irange = \<lparr>lower = Some (fresh h), upper = None,
                      lowerInc = True, upperInc = False, empty = False\<rparr>,
           step = Some Day, rtype = Some ''date'', offsetType = Some ''duration'',
           period = None\<rparr>)"
proof -
  have v: "validate h S = None" using assms by (simp add: validate_closed)
  show ?thesis
    by (simp add: DateRange_constructor_def v MomentDateRange_constructor_def
        bound_of_valid[OF assms(1)] bound_of_falsy[OF assms(2)]
        adjust_lower_def adjust_upper_def canonical_def MomentDateRange_replace_def
        DateRange_next_def moment_add_def split: option.splits)
qed

lemma canonical_not_empty:
  "lower (irange this) = None \<or> upper (irange this) = None \<Longrightarrow>
     \<not> empty (irange (canonical this h lb ub))"
  by (auto simp: canonical_def MomentDateRange_replace_def)

lemma base_bounds:
  "MomentDateRange_constructor h S = (h', this) \<Longrightarrow>
     (\<not> truthy (s_lower S) \<longrightarrow> lower (irange this) = None) \<and>
     (\<not> truthy (s_upper S) \<longrightarrow> upper (irange this) = None)"
  by (auto simp: MomentDateRange_constructor_def bound_of_falsy split: prod.splits)

lemma ctor_irange:
  assumes "DateRange_constructor h S = Inr (h', S', r)"
  shows "\<exists>h1 this h3 lb ub.
           MomentDateRange_constructor h (S\<lparr>s_type := Some ''date''\<rparr>) = (h1, this) \<and>
           irange r = irange (canonical this h3 lb ub)"
proof (cases "validate h S")
  case (Some e)
  with assms show ?thesis by (simp add: DateRange_constructor_def)
next
  case None
  obtain h1 this where b: "MomentDateRange_constructor h (S\<lparr>s_type := Some ''date''\<rparr>) = (h1, this)"
    by (cases "MomentDateRange_constructor h (S\<lparr>s_type := Some ''date''\<rparr>)")
  obtain h2 lb where l: "adjust_lower this h1 = (h2, lb)" by (cases "adjust_lower this h1")
  obtain h3 ub where u: "adjust_upper this h2 = (h3, ub)" by (cases "adjust_upper this h2")
  from assms have "irange r = irange (canonical this h3 lb ub)"
    by (auto simp: DateRange_constructor_def None b l u)
  with b show ?thesis by blast
qed

lemma ctor_not_empty:
  assumes "DateRange_constructor h S = Inr (h', S', r)"
    and "\<not> truthy (s_lower S) \<or> \<not> truthy (s_upper S)"
  shows "\<not> empty (irange r)"
proof -
  from ctor_irange[OF assms(1)] obtain h1 this h3 lb ub where
    b: "MomentDateRange_constructor h (S\<lparr>s_type := Some ''date''\<rparr>) = (h1, this)" and
    r: "irange r = irange (canonical this h3 lb ub)" by blast
  from base_bounds[OF b] assms(2)
  have "lower (irange this) = None \<or> upper (irange this) = None" by auto
  from canonical_not_empty[OF this] r show ?thesis by simp
qed

lemma adjust_lower_None: "lower (irange this) = None \<Longrightarrow> adjust_lower this h = (h, None)"
  by (simp add: adjust_lower_def)

lemma adjust_upper_None: "upper (irange this) = None \<Longrightarrow> adjust_upper this h = (h, None)"
  by (simp add: adjust_upper_def)

lemma ctor_absent_bound:
  assumes "DateRange_constructor h S = Inr (h', S', r)"
  shows "(\<not> truthy (s_lower S) \<longrightarrow> lower (irange r) = None)
       \<and> (\<not> truthy (s_upper S) \<longrightarrow> upper (irange r) = None)"
proof (cases "validate h S")
  case (Some e)
  with assms show ?thesis by (simp add: DateRange_constructor_def)
next
  case None
  obtain h1 this where b: "MomentDateRange_constructor h (S\<lparr>s_type := Some ''date''\<rparr>) = (h1, this)"
    by (cases "MomentDateRange_constructor h (S\<lparr>s_type := Some ''date''\<rparr>)")
  obtain h2 lb where l: "adjust_lower this h1 = (h2, lb)" by (cases "adjust_lower this h1")
  obtain h3 ub where u: "adjust_upper this h2 = (h3, ub)" by (cases "adjust_upper this h2")
  from assms have r: "irange r = irange (canonical this h3 lb ub)"
    by (auto simp: DateRange_constructor_def None b l u)
  have lo: "lower (irange (canonical this h3 lb ub)) = None" if "lower (irange this) = None"
    using that l by (auto simp: canonical_def MomentDateRange_replace_def adjust_lower_None)
  have up: "upper (irange (canonical this h3 lb ub)) = None" if "upper (irange this) = None"
    using that u by (auto simp: canonical_def MomentDateRange_replace_def adjust_upper_None)
  from base_bounds[OF b] lo up r show ?thesis by simp
qed

section \<open>Normalization at construction\<close>

text \<open>
  C1. When both supplied bounds denote dates and the result is not empty, the stored
  lower bound is the supplied one, advanced by a day if \<open>lowerInc\<close> was supplied as
  false; the stored upper bound is the supplied one, advanced by a day if \<open>upperInc\<close>
  was supplied as true; and the canonical tuple has \<open>lowerInc = true\<close> and
  \<open>upperInc = false\<close>.
\<close>

theorem C1_normalization:
  assumes "DateRange_constructor h S = Inr (h', S', r)"
    and "denotes h (s_lower S) = Some dl"
    and "denotes h (s_upper S) = Some du"
    and "\<not> empty (irange r)"
  shows "map_option (cell h') (lower (irange r)) =
           Some (if s_lowerInc S = Some False then dl + 1 else dl)
       \<and> map_option (cell h') (upper (irange r)) =
           Some (if s_upperInc S = Some True then du + 1 else du)
       \<and> lowerInc (irange r) \<and> \<not> upperInc (irange r)"
proof -
  let ?lo = "if s_lowerInc S = Some False then dl + 1 else dl"
  let ?up = "if s_upperInc S = Some True then du + 1 else du"
  note c = assms(1)[unfolded ctor_both[OF assms(2,3)]]
  have "\<not> ?lo \<ge> ?up"
  proof
    assume "?lo \<ge> ?up"
    with c have "irange r = emptyInternalRange" by auto
    with assms(4) show False by (simp add: emptyInternalRange_def)
  qed
  with c show ?thesis by auto
qed

theorem C1_normalization_witness:
  "\<exists>h' S' r.
     DateRange_constructor empty_store
       (settings_of (JStr ''2020-01-01'') (JStr ''2020-01-05'') (Some False) (Some True))
       = Inr (h', S', r)
     \<and> \<not> empty (irange r)
     \<and> map_option (cell h') (lower (irange r)) = parse_date ''2020-01-02''
     \<and> map_option (cell h') (upper (irange r)) = parse_date ''2020-01-06''
     \<and> lowerInc (irange r) \<and> \<not> upperInc (irange r)"
proof -
  let ?S = "settings_of (JStr ''2020-01-01'') (JStr ''2020-01-05'') (Some False) (Some True)"
  have dl: "denotes empty_store (s_lower ?S) = Some 18262"
    by (simp add: settings_of_def parse_2020_01_01)
  have du: "denotes empty_store (s_upper ?S) = Some 18266"
    by (simp add: settings_of_def parse_2020_01_05)
  obtain h' S' r where c: "DateRange_constructor empty_store ?S = Inr (h', S', r)"
    and ne: "\<not> empty (irange r)"
    using ctor_both[OF dl du] by (simp add: settings_of_def)
  from C1_normalization[OF c dl du ne] c ne show ?thesis
    by (simp add: settings_of_def parse_2020_01_02 parse_2020_01_06)
qed

text \<open>
  C2. When both supplied bounds denote dates and the adjusted lower bound is greater than
  or equal to the adjusted upper bound, construction succeeds with the canonical empty
  tuple. The scenarios of the spec, lower 2020-01-05 with upper 2020-01-01 and the
  exclusive lower 2020-01-01 with upper 2020-01-02, are instances.
\<close>

theorem C2_empty_collapse:
  assumes "denotes h (s_lower S) = Some dl"
    and "denotes h (s_upper S) = Some du"
    and "(if s_lowerInc S = Some False then dl + 1 else dl)
           \<ge> (if s_upperInc S = Some True then du + 1 else du)"
  shows "\<exists>h' S' r. DateRange_constructor h S = Inr (h', S', r) \<and>
           irange r = \<lparr>lower = None, upper = None, lowerInc = False, upperInc = False,
                        empty = True\<rparr>"
  using assms(3) by (simp add: ctor_both[OF assms(1,2)] emptyInternalRange_def)

theorem C2_empty_collapse_witness:
  "(\<exists>h' S' r.
      DateRange_constructor empty_store
        (settings_of (JStr ''2020-01-05'') (JStr ''2020-01-01'') None None) = Inr (h', S', r)
      \<and> irange r = \<lparr>lower = None, upper = None, lowerInc = False, upperInc = False,
                      empty = True\<rparr>)
   \<and> (\<exists>h' S' r.
      DateRange_constructor empty_store
        (settings_of (JStr ''2020-01-01'') (JStr ''2020-01-02'') (Some False) None)
        = Inr (h', S', r)
      \<and> irange r = \<lparr>lower = None, upper = None, lowerInc = False, upperInc = False,
                      empty = True\<rparr>)"
proof
  let ?B = "settings_of (JStr ''2020-01-05'') (JStr ''2020-01-01'') None None"
  have "denotes empty_store (s_lower ?B) = Some 18266"
    and "denotes empty_store (s_upper ?B) = Some 18262"
    by (simp_all add: settings_of_def parse_2020_01_05 parse_2020_01_01)
  from C2_empty_collapse[OF this]
  show "\<exists>h' S' r. DateRange_constructor empty_store ?B = Inr (h', S', r)
      \<and> irange r = \<lparr>lower = None, upper = None, lowerInc = False, upperInc = False,
                      empty = True\<rparr>"
    by (simp add: settings_of_def)
next
  let ?C = "settings_of (JStr ''2020-01-01'') (JStr ''2020-01-02'') (Some False) None"
  have "denotes empty_store (s_lower ?C) = Some 18262"
    and "denotes empty_store (s_upper ?C) = Some 18263"
    by (simp_all add: settings_of_def parse_2020_01_01 parse_2020_01_02)
  from C2_empty_collapse[OF this]
  show "\<exists>h' S' r. DateRange_constructor empty_store ?C = Inr (h', S', r)
      \<and> irange r = \<lparr>lower = None, upper = None, lowerInc = False, upperInc = False,
                      empty = True\<rparr>"
    by (simp add: settings_of_def)
qed

section \<open>Length\<close>

lemma round_days: "Math_round (asDays (d * 86400000)) = d"
proof -
  have "\<lfloor>(1::rat) / 2\<rfloor> = 0" by (simp add: floor_eq_iff)
  then show ?thesis by (simp add: Math_round_def asDays_def)
qed

lemma length_bounded:
  "lower (irange r) = Some l \<Longrightarrow> upper (irange r) = Some u \<Longrightarrow>
     DateRange_length h r = Inr (cell h u - cell h l)"
  using round_days[of "cell h u - cell h l"]
  by (simp add: DateRange_length_def diff_def valueOf_def algebra_simps)

text \<open>
  C3. \<^verbatim>\<open>length()\<close> throws the unbounded-length error exactly when a bound is null;
  with both bounds present it returns the number of days from lower to upper, which is
  what rounding the day-duration gives.
\<close>

theorem C3_length:
  "DateRange_length h r =
     (case lower (irange r) of
        None \<Rightarrow> Inl UnboundedLength
      | Some l \<Rightarrow>
         (case upper (irange r) of
            None \<Rightarrow> Inl UnboundedLength
          | Some u \<Rightarrow> Inr (cell h u - cell h l)))"
proof (cases "lower (irange r)")
  case None
  then show ?thesis by (simp add: DateRange_length_def split: option.splits)
next
  case (Some l)
  then show ?thesis
    by (cases "upper (irange r)") (simp_all add: length_bounded, simp add: DateRange_length_def)
qed

theorem C3_length_scenarios:
  "(\<exists>h S' r.
      DateRange_constructor empty_store
        (settings_of (JStr ''2020-01-01'') (JStr ''2020-01-05'') None None) = Inr (h, S', r)
      \<and> DateRange_length h r = Inr 4)
   \<and> (\<exists>h S' r.
      DateRange_constructor empty_store
        (settings_of (JStr ''2020-01-01'') JUndefined None None) = Inr (h, S', r)
      \<and> DateRange_length h r = Inl UnboundedLength)"
proof
  let ?A = "settings_of (JStr ''2020-01-01'') (JStr ''2020-01-05'') None None"
  have "denotes empty_store (s_lower ?A) = Some 18262"
    and "denotes empty_store (s_upper ?A) = Some 18266"
    by (simp_all add: settings_of_def parse_2020_01_01 parse_2020_01_05)
  from ctor_both[OF this]
  show "\<exists>h S' r. DateRange_constructor empty_store ?A = Inr (h, S', r)
      \<and> DateRange_length h r = Inr 4"
    by (simp add: C3_length settings_of_def empty_store_def)
next
  let ?D = "settings_of (JStr ''2020-01-01'') JUndefined None None"
  have "denotes empty_store (s_lower ?D) = Some 18262" and "\<not> truthy (s_upper ?D)"
    by (simp_all add: settings_of_def parse_2020_01_01)
  from ctor_lower_only[OF this]
  show "\<exists>h S' r. DateRange_constructor empty_store ?D = Inr (h, S', r)
      \<and> DateRange_length h r = Inl UnboundedLength"
    by (simp add: C3_length)
qed

section \<open>Iteration\<close>

lemma last_bounded:
  "upper (irange r) = Some b \<Longrightarrow> step r = Some Day \<Longrightarrow>
     DateRange_last h r = (h\<lparr>cell := (cell h)(b := cell h b - 1)\<rparr>, Some b)"
  by (simp add: DateRange_last_def DateRange_prev_def moment_subtract_def)

lemma iterator_next_day:
  assumes "it_start it = s" "it_last it = Some b" "it_step it = Some Day" "s \<noteq> b"
  shows "iterator_next h it =
     (h\<lparr>cell := (cell h)(s := cell h s + 1)\<rparr>, it, s, cell h s + 1 > cell h b)"
  using assms
  by (simp add: iterator_next_def DateRange_next_def moment_add_def toNumber_def valueOf_def)

lemma consume_day:
  assumes "it_start it = s" "it_last it = Some b" "it_step it = Some Day" "s \<noteq> b"
    and "cell h s \<le> cell h b"
  shows "consume h it acc =
     Some (h\<lparr>cell := (cell h)(s := cell h b + 1)\<rparr>, acc @ [cell h s + 1 .. cell h b])"
  using assms(5)
proof (induction "nat (cell h b - cell h s)" arbitrary: h acc)
  case 0
  then have eq: "cell h s = cell h b" by simp
  show ?case
    by (subst consume.simps) (simp add: iterator_next_day[OF assms(1-4)] eq)
next
  case (Suc n)
  let ?h = "h\<lparr>cell := (cell h)(s := cell h s + 1)\<rparr>"
  from Suc.hyps(2) have lt: "cell h s < cell h b" by simp
  have n: "n = nat (cell ?h b - cell ?h s)" using Suc.hyps(2) assms(4) by simp
  have le: "cell ?h s \<le> cell ?h b" using lt assms(4) by simp
  have ih: "consume ?h it (acc @ [cell h s + 1]) =
      Some (?h\<lparr>cell := (cell ?h)(s := cell ?h b + 1)\<rparr>,
            (acc @ [cell h s + 1]) @ [cell ?h s + 1 .. cell ?h b])"
    by (rule Suc.hyps(1)[OF n le])
  have up: "[cell h s + 1 .. cell h b] = (cell h s + 1) # [cell h s + 1 + 1 .. cell h b]"
    using lt by (simp add: upto_rec1)
  show ?case
    by (subst consume.simps)
      (use lt assms(4) in \<open>simp add: iterator_next_day[OF assms(1-4)] ih up\<close>)
qed

lemma iterate_bounded:
  assumes "lower (irange r) = Some a" "upper (irange r) = Some b" "a \<noteq> b"
    and "step r = Some Day" "cell h a < cell h b"
  shows "DateRange_iterate h r =
     Some (Inr (h\<lparr>cell := (cell h)(b := cell h b - 1, a := cell h b)\<rparr>,
                [cell h a .. cell h b - 1]))"
proof -
  let ?h1 = "h\<lparr>cell := (cell h)(b := cell h b - 1)\<rparr>"
  let ?h2 = "?h1\<lparr>cell := (cell ?h1)(a := cell ?h1 a - 1)\<rparr>"
  let ?it = "\<lparr>it_start = a, it_last = Some b, it_step = Some Day\<rparr>"
  have it: "DateRange_iterator h r = Inr (?h2, ?it)"
    using assms(1,4)
    by (simp add: DateRange_iterator_def last_bounded[OF assms(2,4)] DateRange_prev_def
        moment_subtract_def)
  have le: "cell ?h2 a \<le> cell ?h2 b" using assms(3,5) by simp
  have "consume ?h2 ?it [] =
      Some (?h2\<lparr>cell := (cell ?h2)(a := cell ?h2 b + 1)\<rparr>, [] @ [cell ?h2 a + 1 .. cell ?h2 b])"
    by (rule consume_day[OF _ _ _ assms(3) le]) simp_all
  then show ?thesis using assms(3) by (simp add: DateRange_iterate_def it)
qed

text \<open>
  What the constructor establishes for a range with both bounds present: the bounds are
  two different moments, the lower one is the earlier, and the step is a day.
\<close>

lemma constructed_range:
  assumes "DateRange_constructor h S = Inr (h', S', r)"
    and "lower (irange r) = Some a" "upper (irange r) = Some b"
  shows "a \<noteq> b \<and> cell h' a < cell h' b \<and> step r = Some Day"
proof -
  from ctor_absent_bound[OF assms(1)] assms(2,3)
  have t: "truthy (s_lower S)" "truthy (s_upper S)" by auto
  have v: "validate h S = None"
    using assms(1) by (cases "validate h S") (simp_all add: DateRange_constructor_def)
  from v t obtain dl du where
    d: "denotes h (s_lower S) = Some dl" "denotes h (s_upper S) = Some du"
    by (auto simp: validate_closed split: if_splits)
  note c = assms(1)[unfolded ctor_both[OF d]]
  show ?thesis
  proof (cases "(if s_lowerInc S = Some False then dl + 1 else dl)
                  \<ge> (if s_upperInc S = Some True then du + 1 else du)")
    case True
    with c have "irange r = emptyInternalRange" by auto
    with assms(2) show ?thesis by (simp add: emptyInternalRange_def)
  next
    case False
    with c assms(2,3) show ?thesis by auto
  qed
qed

text \<open>
  C4. For every constructed range with both bounds present, the iteration ends and
  produces the days from lower up to and including the value of \<^verbatim>\<open>last()\<close>, the day
  before upper, one element for each day; and the number of elements is what
  \<^verbatim>\<open>length()\<close> returns on the range.
\<close>

theorem C4_iteration:
  assumes "DateRange_constructor h0 S = Inr (h, S', r)"
    and "lower (irange r) = Some a" "upper (irange r) = Some b"
  shows "\<exists>h' lst.
           DateRange_iterate h r = Some (Inr (h', [cell h a .. cell h b - 1]))
         \<and> DateRange_last h r = (lst, Some b) \<and> cell lst b = cell h b - 1
         \<and> cell h a \<le> cell h b - 1
         \<and> DateRange_length h r = Inr (int (length [cell h a .. cell h b - 1]))"
proof -
  from constructed_range[OF assms]
  have ne: "a \<noteq> b" and lt: "cell h a < cell h b" and st: "step r = Some Day" by simp_all
  from lt show ?thesis
    by (simp add: iterate_bounded[OF assms(2,3) ne st lt] last_bounded[OF assms(3) st]
        length_bounded[OF assms(2,3)])
qed

theorem C4_iteration_witness:
  "\<exists>h S' r h'.
     DateRange_constructor empty_store
       (settings_of (JStr ''2020-01-01'') (JStr ''2020-01-05'') None None) = Inr (h, S', r)
     \<and> DateRange_iterate h r = Some (Inr (h', [18262, 18263, 18264, 18265]))
     \<and> parse_date ''2020-01-01'' = Some 18262 \<and> parse_date ''2020-01-04'' = Some 18265
     \<and> DateRange_length h r = Inr 4"
proof -
  let ?A = "settings_of (JStr ''2020-01-01'') (JStr ''2020-01-05'') None None"
  have "denotes empty_store (s_lower ?A) = Some 18262"
    and "denotes empty_store (s_upper ?A) = Some 18266"
    by (simp_all add: settings_of_def parse_2020_01_01 parse_2020_01_05)
  from ctor_both[OF this] obtain h S' r where
    c: "DateRange_constructor empty_store ?A = Inr (h, S', r)"
    and r: "lower (irange r) = Some 0" "upper (irange r) = Some (Suc 0)"
    and h: "cell h 0 = 18262" "cell h (Suc 0) = 18266"
    by (simp add: settings_of_def empty_store_def)
  have l: "[18262 .. 18265] = [18262, 18263, 18264, 18265 :: int]"
    by (simp add: upto_rec1)
  from C4_iteration[OF c r] c show ?thesis
    by (auto simp: h l parse_2020_01_01 parse_2020_01_04)
qed

section \<open>Validation\<close>

text \<open>
  C5, as stated, fails: the empty string is a supplied, non-null lower bound that is no
  date, and the checks let it pass, since they test the bound for truthiness.
\<close>

theorem C5_empty_string_counterexample:
  "s_lower (settings_of (JStr '''') JUndefined None None) \<noteq> JNull
   \<and> s_lower (settings_of (JStr '''') JUndefined None None) \<noteq> JUndefined
   \<and> \<not> isValidDate empty_store (s_lower (settings_of (JStr '''') JUndefined None None))
   \<and> validate empty_store (settings_of (JStr '''') JUndefined None None) = None
   \<and> DateRange_constructor empty_store (settings_of (JStr '''') JUndefined None None)
       \<noteq> Inl (InvalidBound LowerBound)
   \<and> DateRange_constructor empty_store (settings_of (JStr '''') JUndefined None None)
       \<noteq> Inl (InvalidBound UpperBound)"
  by (simp add: settings_of_def isValidDate_def moment_def parse_date_Nil validate_def
      DateRange_constructor_def Let_def split: prod.splits)

text \<open>
  C5, amended. Construction fails with the invalid-bound error for the lower bound
  exactly when the supplied lower bound is truthy (neither null, nor absent, nor the empty
  string) and is no recognized date; it fails with the error for the upper bound exactly
  when the lower bound passes its check and the supplied upper bound is truthy and is no
  recognized date. No other error arises, and a failure returns no instance.
\<close>

theorem C5_invalid_bound:
  "(DateRange_constructor h S = Inl e) =
     (e = InvalidBound LowerBound
        \<and> truthy (s_lower S) \<and> \<not> isValidDate h (s_lower S)
      \<or> e = InvalidBound UpperBound
        \<and> \<not> (truthy (s_lower S) \<and> \<not> isValidDate h (s_lower S))
        \<and> truthy (s_upper S) \<and> \<not> isValidDate h (s_upper S))"
proof (cases "validate h S")
  case None
  with ctor_succeeds[OF None] show ?thesis
    by (auto simp: validate_closed isValidDate_def moment_def split: if_splits)
next
  case (Some e')
  with ctor_fails[OF Some] show ?thesis
    by (auto simp: validate_closed isValidDate_def moment_def split: if_splits)
qed

theorem C5_invalid_bound_witness:
  "DateRange_constructor empty_store
     (settings_of (JStr ''2020-13-01'') (JStr ''01-05-2020'') None None)
     = Inl (InvalidBound LowerBound)
   \<and> DateRange_constructor empty_store
     (settings_of (JStr ''01-05-2020'') (JStr ''2020-13-01'') None None)
     = Inl (InvalidBound UpperBound)"
  by (simp add: C5_invalid_bound settings_of_def isValidDate_def moment_def
      parse_american parse_month_13)

section \<open>The last element\<close>

lemma moment_valid:
  "denotes h v = Some d \<Longrightarrow>
     moment h v = Some (h\<lparr>cell := (cell h)(fresh h := d), fresh := Suc (fresh h)\<rparr>, fresh h)"
  by (simp add: moment_def alloc_def)

lemma last_unbounded: "upper (irange r) = None \<Longrightarrow> DateRange_last h r = (h, None)"
  by (simp add: DateRange_last_def)

lemma endsWith_no_upper:
  assumes "upper (irange r) = None" "denotes h other = Some d"
  shows "DateRange_endsWith super_endsWith h r other = Inl TypeError"
proof -
  let ?h1 = "h\<lparr>cell := (cell h)(fresh h := d), fresh := Suc (fresh h)\<rparr>"
  have "denotes ?h1 other = Some d"
    using denotes_alloc[OF assms(2), of d] by (simp add: alloc_def)
  then show ?thesis
    by (simp add: DateRange_endsWith_def moment_valid[OF assms(2)] last_unbounded[OF assms(1)]
        moment_valid)
qed

lemma endsWith_bounded:
  assumes "upper (irange r) = Some b" "b < fresh h" "step r = Some Day"
    and "denotes h other = Some d"
  shows "\<exists>h'. DateRange_endsWith super_endsWith h r other =
           Inr (h', if other = JMoment b then True else d = cell h b - 1)"
proof -
  let ?h1 = "h\<lparr>cell := (cell h)(fresh h := d), fresh := Suc (fresh h)\<rparr>"
  let ?h2 = "?h1\<lparr>cell := (cell ?h1)(b := cell ?h1 b - 1)\<rparr>"
  have l: "DateRange_last ?h1 r = (?h2, Some b)"
    by (rule last_bounded[OF assms(1,3)])
  let ?d2 = "if other = JMoment b then cell h b - 1 else d"
  let ?h3 = "?h2\<lparr>cell := (cell ?h2)(fresh ?h2 := ?d2), fresh := Suc (fresh ?h2)\<rparr>"
  have m1: "moment h other = Some (?h1, fresh h)"
    by (rule moment_valid[OF assms(4)])
  have d2: "denotes ?h2 other = Some ?d2"
    using assms(2,4) by (cases other) (auto split: if_splits)
  have m2: "moment ?h2 other = Some (?h3, fresh ?h2)"
    by (rule moment_valid[OF d2])
  have "DateRange_endsWith super_endsWith h r other = Inr (?h3, isSame ?h3 b (fresh ?h2))"
    by (simp only: DateRange_endsWith_def m1 l m2 option.case prod.case)
  moreover have "isSame ?h3 b (fresh ?h2) = (if other = JMoment b then True else d = cell h b - 1)"
    using assms(2) by (auto simp: isSame_def valueOf_def)
  ultimately show ?thesis by simp
qed

text \<open>
  C6. The code departs from the claim on a range with no upper bound: \<^verbatim>\<open>last()\<close> is
  null there, and \<^verbatim>\<open>endsWith\<close> of a date calls \<^verbatim>\<open>isSame\<close> on it, which throws a
  TypeError instead of returning a boolean. Evaluated on the range with lower bound
  2020-01-01 and no upper bound, asked whether it ends with 2020-01-05.
\<close>

theorem C6_endsWith_unbounded_throws:
  "\<exists>h S' r.
     DateRange_constructor empty_store
       (settings_of (JStr ''2020-01-01'') JUndefined None None) = Inr (h, S', r)
     \<and> upper (irange r) = None
     \<and> DateRange_last h r = (h, None)
     \<and> parse_date ''2020-01-05'' = Some 18266
     \<and> (\<forall>super_endsWith.
          DateRange_endsWith super_endsWith h r (JStr ''2020-01-05'') = Inl TypeError)"
proof -
  let ?D = "settings_of (JStr ''2020-01-01'') JUndefined None None"
  have "denotes empty_store (s_lower ?D) = Some 18262" and "\<not> truthy (s_upper ?D)"
    by (simp_all add: settings_of_def parse_2020_01_01)
  from ctor_lower_only[OF this] obtain h S' r where
    c: "DateRange_constructor empty_store ?D = Inr (h, S', r)"
    and u: "upper (irange r) = None"
    by simp
  have "denotes h (JStr ''2020-01-05'') = Some 18266" by (simp add: parse_2020_01_05)
  from endsWith_no_upper[OF u this] last_unbounded[OF u] c u show ?thesis
    by (auto simp: parse_2020_01_05)
qed

section \<open>The bounds after reading the range\<close>

text \<open>
  C7. The code departs from the claim: \<^verbatim>\<open>last()\<close> returns the moment that is the upper
  bound, moved one day back in place, and an iteration leaves the lower bound at the
  former upper bound and the upper bound a day before it. Evaluated on the range from
  2020-01-01 to 2020-01-05.
\<close>

theorem C7_last_and_iteration_move_bounds:
  "\<exists>h S' r h1 v h2 xs.
     DateRange_constructor empty_store
       (settings_of (JStr ''2020-01-01'') (JStr ''2020-01-05'') None None) = Inr (h, S', r)
     \<and> bounds h r = (parse_date ''2020-01-01'', parse_date ''2020-01-05'')
     \<and> DateRange_last h r = (h1, v) \<and> v = upper (irange r)
     \<and> bounds h1 r = (parse_date ''2020-01-01'', parse_date ''2020-01-04'')
     \<and> DateRange_iterate h r = Some (Inr (h2, xs))
     \<and> bounds h2 r = (parse_date ''2020-01-05'', parse_date ''2020-01-04'')"
proof -
  let ?A = "settings_of (JStr ''2020-01-01'') (JStr ''2020-01-05'') None None"
  have "denotes empty_store (s_lower ?A) = Some 18262"
    and "denotes empty_store (s_upper ?A) = Some 18266"
    by (simp_all add: settings_of_def parse_2020_01_01 parse_2020_01_05)
  from ctor_both[OF this] obtain h S' r where
    c: "DateRange_constructor empty_store ?A = Inr (h, S', r)"
    and r: "lower (irange r) = Some 0" "upper (irange r) = Some (Suc 0)" "step r = Some Day"
    and h: "cell h 0 = 18262" "cell h (Suc 0) = 18266"
    by (simp add: settings_of_def empty_store_def)
  have ne: "(0::nat) \<noteq> Suc 0" by simp
  have lt: "cell h 0 < cell h (Suc 0)" by (simp add: h)
  from c last_bounded[OF r(2,3), of h] iterate_bounded[OF r(1,2) ne r(3) lt]
  show ?thesis
    by (simp add: bounds_def r h parse_2020_01_01 parse_2020_01_04 parse_2020_01_05)
qed

section \<open>Unbounded ranges\<close>

text \<open>
  C8. A range constructed with exactly one bound present, the other being null or absent,
  is not the empty interval, and the bound that was not supplied is null in the result;
  with only the lower bound set, the result is non-empty with a null upper bound.
\<close>

theorem C8_one_bound_never_empty:
  assumes "DateRange_constructor h S = Inr (h', S', r)"
    and "(s_lower S = JNull \<or> s_lower S = JUndefined)
           \<noteq> (s_upper S = JNull \<or> s_upper S = JUndefined)"
  shows "\<not> empty (irange r)
       \<and> (if s_upper S = JNull \<or> s_upper S = JUndefined
          then upper (irange r) = None else lower (irange r) = None)"
proof -
  from assms(2) have "\<not> truthy (s_lower S) \<or> \<not> truthy (s_upper S)" by auto
  from ctor_not_empty[OF assms(1) this] have ne: "\<not> empty (irange r)" .
  from assms(2) ctor_absent_bound[OF assms(1)] ne show ?thesis by auto
qed

theorem C8_one_bound_never_empty_witness:
  "\<exists>h' S' r.
     DateRange_constructor empty_store
       (settings_of (JStr ''2020-01-01'') JUndefined None None) = Inr (h', S', r)
     \<and> \<not> empty (irange r) \<and> upper (irange r) = None
     \<and> map_option (cell h') (lower (irange r)) = parse_date ''2020-01-01''"
proof -
  let ?D = "settings_of (JStr ''2020-01-01'') JUndefined None None"
  have "denotes empty_store (s_lower ?D) = Some 18262" and "\<not> truthy (s_upper ?D)"
    by (simp_all add: settings_of_def parse_2020_01_01)
  from ctor_lower_only[OF this] obtain h' S' r where
    c: "DateRange_constructor empty_store ?D = Inr (h', S', r)"
    and l: "map_option (cell h') (lower (irange r)) = Some 18262"
    by (simp add: settings_of_def)
  have one: "(s_lower ?D = JNull \<or> s_lower ?D = JUndefined)
           \<noteq> (s_upper ?D = JNull \<or> s_upper ?D = JUndefined)"
    by (simp add: settings_of_def)
  from C8_one_bound_never_empty[OF c one] c l show ?thesis
    by (simp add: settings_of_def parse_2020_01_01)
qed

section \<open>Printing a date and reading it back\<close>













































section \<open>The months of the calendar\<close>


















section \<open>Period navigation\<close>









section \<open>The settings object\<close>

text \<open>
  C10. A successful construction leaves the caller's settings object with
  \<open>type = 'date'\<close>, every other property as supplied; the assignment precedes the
  call of the base constructor, and the instance takes its \<open>type\<close> from it.
\<close>

theorem C10_settings_type_assigned:
  assumes "DateRange_constructor h S = Inr (h', S', r)"
  shows "S' = S\<lparr>s_type := Some ''date''\<rparr> \<and> rtype r = Some ''date''"
  using assms
  by (auto simp: DateRange_constructor_def Let_def split: option.splits prod.splits)

theorem C10_settings_type_assigned_witness:
  "\<exists>h' S' r.
     DateRange_constructor empty_store
       (settings_of (JStr ''2020-01-01'') (JStr ''2020-01-05'') None None) = Inr (h', S', r)
     \<and> s_type (settings_of (JStr ''2020-01-01'') (JStr ''2020-01-05'') None None) = None
     \<and> s_type S' = Some ''date''
     \<and> s_lower S' = JStr ''2020-01-01'' \<and> s_upper S' = JStr ''2020-01-05''"
proof -
  let ?A = "settings_of (JStr ''2020-01-01'') (JStr ''2020-01-05'') None None"
  have "denotes empty_store (s_lower ?A) = Some 18262"
    and "denotes empty_store (s_upper ?A) = Some 18266"
    by (simp_all add: settings_of_def parse_2020_01_01 parse_2020_01_05)
  from ctor_both[OF this] obtain h' S' r where
    c: "DateRange_constructor empty_store ?A = Inr (h', S', r)"
    by simp
  from C10_settings_type_assigned[OF c] c show ?thesis
    by (auto simp: settings_of_def)
qed

end
